theory Spec2Isabelle
  imports Main
begin

section \<open>Python values, dictionaries and exceptions\<close>

text \<open>
  The module works on untyped Python data: the user topology is a dict of dicts, and the
  answers of the CloudVision client are JSON documents. A value is one of the JSON shapes;
  a dict is an association list, in insertion order, whose keys are strings.
\<close>

datatype pyval =
    PNone
  | PBool bool
  | PInt int
  | PStr string
  | PList "pyval list"
  | PDict "(string \<times> pyval) list"

type_synonym pydict = "(string \<times> pyval) list"

text \<open>The exceptions that the statements of the module can raise.\<close>

datatype exn =
    CvpApiError
  | CvpRequestError
  | KeyError
  | TypeError
  | AttributeError
  | UnboundLocalError

section \<open>ContainerInput: the user topology\<close>

text \<open>
  \<^verbatim>\<open>self._topology\<close> maps a container name to its data, a dict with the field
  \<^verbatim>\<open>parent_container\<close> and, possibly, \<^verbatim>\<open>configlets\<close>. Iterating a dict yields its
  keys in insertion order, so the topology is an association list; a Python dict has no
  duplicate key, which is \<open>distinct (map fst topology)\<close>.
\<close>

type_synonym topology = "(string \<times> pydict) list"

definition parent_field :: string where
  "parent_field = ''parent_container''"

definition configlet_field :: string where
  "configlet_field = ''configlets''"

text \<open>
  \<^verbatim>\<open>_get_container_data\<close>: the value of a key of a container, \<^verbatim>\<open>None\<close> when the
  container or the key is missing.
\<close>

definition get_container_data :: "topology \<Rightarrow> string \<Rightarrow> string \<Rightarrow> pyval" where
  "get_container_data topo container_name key_name =
     (case map_of topo container_name of
        None \<Rightarrow> PNone
      | Some d \<Rightarrow> (case map_of d key_name of None \<Rightarrow> PNone | Some v \<Rightarrow> v))"

definition get_parent :: "topology \<Rightarrow> string \<Rightarrow> string \<Rightarrow> pyval" where
  "get_parent topo container_name parent_key = get_container_data topo container_name parent_key"

definition get_configlets :: "topology \<Rightarrow> string \<Rightarrow> string \<Rightarrow> pyval" where
  "get_configlets topo container_name configlet_key =
     get_container_data topo container_name configlet_key"

definition has_configlets :: "topology \<Rightarrow> string \<Rightarrow> string \<Rightarrow> bool" where
  "has_configlets topo container_name configlet_key =
     (if get_container_data topo container_name configlet_key = PNone then False else True)"

text \<open>
  One step of the \<^verbatim>\<open>for container in self._topology\<close> loop of
  \<^verbatim>\<open>ordered_list_containers\<close>. The subscript
  \<^verbatim>\<open>self._topology[container][self._parent_field]\<close> raises \<^verbatim>\<open>KeyError\<close> when the
  container has no parent field. The first test appends without looking at the list; the
  second one appends only a container that is not in the list yet.
\<close>

definition place_container :: "topology \<Rightarrow> string \<Rightarrow> string \<Rightarrow> string list \<Rightarrow> exn + string list" where
  "place_container topo root_name container result_list =
     (case map_of topo container of
        None \<Rightarrow> Inl KeyError
      | Some d \<Rightarrow>
          (case map_of d parent_field of
             None \<Rightarrow> Inl KeyError
           | Some p \<Rightarrow>
               (let r1 = (if p = PStr root_name then result_list @ [container] else result_list);
                    r2 = (if (\<exists>element \<in> set r1. PStr element = p) \<and> container \<notin> set r1
                          then r1 @ [container] else r1)
                in Inr r2)))"

text \<open>One pass of the \<^verbatim>\<open>for\<close> loop over the keys that are still to be visited.\<close>

fun scan_pass :: "topology \<Rightarrow> string \<Rightarrow> string list \<Rightarrow> string list \<Rightarrow> exn + string list" where
  "scan_pass topo root_name [] result_list = Inr result_list"
| "scan_pass topo root_name (container # rest) result_list =
     (case place_container topo root_name container result_list of
        Inl e \<Rightarrow> Inl e
      | Inr r \<Rightarrow> scan_pass topo root_name rest r)"

text \<open>
  The \<^verbatim>\<open>while (len(result_list) < len(self._topology))\<close> loop. Nothing bounds the number
  of passes, so the loop is a partial function: \<open>None\<close> is a run that never returns,
  \<open>Some (Inl e)\<close> a raised exception and \<open>Some (Inr l)\<close> the returned list.
\<close>

partial_function (option) order_loop ::
  "topology \<Rightarrow> string \<Rightarrow> string list \<Rightarrow> (exn + string list) option" where
  "order_loop topo root_name result_list =
     (if length result_list < length topo
      then (case scan_pass topo root_name (map fst topo) result_list of
              Inl e \<Rightarrow> Some (Inl e)
            | Inr r \<Rightarrow> order_loop topo root_name r)
      else Some (Inr result_list))"

definition ordered_list_containers :: "topology \<Rightarrow> string \<Rightarrow> (exn + string list) option" where
  "ordered_list_containers topo root_name = order_loop topo root_name []"

text \<open>The well-formed forests of the specification, and a dangling parent reference.\<close>

definition declared_parent :: "topology \<Rightarrow> string \<Rightarrow> pyval option" where
  "declared_parent topo container =
     (case map_of topo container of None \<Rightarrow> None | Some d \<Rightarrow> map_of d parent_field)"

definition dangling :: "topology \<Rightarrow> string \<Rightarrow> string \<Rightarrow> bool" where
  "dangling topo root_name container =
     (case declared_parent topo container of
        None \<Rightarrow> False
      | Some p \<Rightarrow> p \<noteq> PStr root_name \<and> (\<forall>k \<in> set (map fst topo). p \<noteq> PStr k))"

definition has_root_child :: "topology \<Rightarrow> string \<Rightarrow> bool" where
  "has_root_child topo root_name =
     (\<exists>k \<in> set (map fst topo). declared_parent topo k = Some (PStr root_name))"

definition all_declare_parent :: "topology \<Rightarrow> bool" where
  "all_declare_parent topo = (\<forall>k \<in> set (map fst topo). declared_parent topo k \<noteq> None)"

section \<open>Python operations on values\<close>

text \<open>The constants of the module for the fields of the API data.\<close>

definition FIELD_COUNT_DEVICES :: string where
  "FIELD_COUNT_DEVICES = ''childNetElementCount''"

definition FIELD_COUNT_CONTAINERS :: string where
  "FIELD_COUNT_CONTAINERS = ''childContainerCount''"

definition FIELD_PARENT_ID :: string where
  "FIELD_PARENT_ID = ''parentContainerId''"

definition FIELD_NAME :: string where
  "FIELD_NAME = ''name''"

definition FIELD_KEY :: string where
  "FIELD_KEY = ''key''"

definition FIELD_TOPOLOGY :: string where
  "FIELD_TOPOLOGY = ''topology''"

text \<open>\<^verbatim>\<open>d[k]\<close> on a dict raises \<^verbatim>\<open>KeyError\<close> when the key is missing.\<close>

definition dict_getitem :: "pydict \<Rightarrow> string \<Rightarrow> exn + pyval" where
  "dict_getitem d k = (case map_of d k of None \<Rightarrow> Inl KeyError | Some v \<Rightarrow> Inr v)"

text \<open>
  \<^verbatim>\<open>v[k]\<close> with a string \<open>k\<close> on any value: only a dict can be subscripted by a string,
  every other value raises \<^verbatim>\<open>TypeError\<close>.
\<close>

fun py_getitem :: "pyval \<Rightarrow> string \<Rightarrow> exn + pyval" where
  "py_getitem (PDict d) k = dict_getitem d k"
| "py_getitem PNone k = Inl TypeError"
| "py_getitem (PBool b) k = Inl TypeError"
| "py_getitem (PInt i) k = Inl TypeError"
| "py_getitem (PStr s) k = Inl TypeError"
| "py_getitem (PList l) k = Inl TypeError"

text \<open>\<^verbatim>\<open>v[k]\<close> where \<open>v\<close> is a dict or \<^verbatim>\<open>None\<close>.\<close>

fun opt_getitem :: "pydict option \<Rightarrow> string \<Rightarrow> exn + pyval" where
  "opt_getitem None k = Inl TypeError"
| "opt_getitem (Some d) k = dict_getitem d k"

text \<open>\<^verbatim>\<open>d.get(k)\<close>.\<close>

definition dict_get :: "pydict \<Rightarrow> string \<Rightarrow> pyval" where
  "dict_get d k = (case map_of d k of None \<Rightarrow> PNone | Some v \<Rightarrow> v)"

text \<open>The truth value of a value in a condition.\<close>

fun truthy :: "pyval \<Rightarrow> bool" where
  "truthy PNone = False"
| "truthy (PBool b) = b"
| "truthy (PInt i) = (i \<noteq> 0)"
| "truthy (PStr s) = (s \<noteq> [])"
| "truthy (PList l) = (l \<noteq> [])"
| "truthy (PDict d) = (d \<noteq> [])"

text \<open>\<^verbatim>\<open>v == 0\<close>: the integer zero, or \<^verbatim>\<open>False\<close>, which Python equates with it.\<close>

fun eq_zero :: "pyval \<Rightarrow> bool" where
  "eq_zero (PInt i) = (i = 0)"
| "eq_zero (PBool b) = (\<not> b)"
| "eq_zero v = False"

text \<open>\<^verbatim>\<open>v + ':'\<close>: only a string can be concatenated with a string.\<close>

fun str_add :: "pyval \<Rightarrow> string \<Rightarrow> exn + string" where
  "str_add (PStr s) t = Inr (s @ t)"
| "str_add v t = Inl TypeError"

text \<open>\<^verbatim>\<open>sep.join(items)\<close>: every item has to be a string.\<close>

fun str_join :: "string \<Rightarrow> pyval list \<Rightarrow> exn + string" where
  "str_join sep [] = Inr []"
| "str_join sep [PStr s] = Inr s"
| "str_join sep (PStr s # v # vs) =
     (case str_join sep (v # vs) of Inl e \<Rightarrow> Inl e | Inr t \<Rightarrow> Inr (s @ sep @ t))"
| "str_join sep (v # vs) = Inl TypeError"

definition sum_bind :: "exn + 'a \<Rightarrow> ('a \<Rightarrow> exn + 'b) \<Rightarrow> exn + 'b" where
  "sum_bind m f = (case m of Inl e \<Rightarrow> Inl e | Inr x \<Rightarrow> f x)"

section \<open>CvApiResult\<close>

text \<open>
  Modelled from the spec: the class \<^verbatim>\<open>CvApiResult\<close> of \<^verbatim>\<open>module_utils/response.py\<close>
  is imported by the module and is not part of the sources. The specification describes it
  as the record ChangeResult with the fields name, success, changed, taskIds and count,
  holding no success, no change, no task and the count zero until the operation sets them;
  an assignment to an attribute sets that field only.
\<close>

record CvApiResult =
  name :: string
  success :: bool
  changed :: bool
  taskIds :: pyval
  count :: int

definition CvApiResult_init :: "string \<Rightarrow> CvApiResult" where
  "CvApiResult_init action_name =
     \<lparr>name = action_name, success = False, changed = False, taskIds = PList [], count = 0\<rparr>"

section \<open>The CloudVision client\<close>

text \<open>
  \<^verbatim>\<open>self._cvp_client.api\<close> is the client of the cvprac library, a collaborator outside of
  the module: it is a parameter of the model. Each method takes the state of the remote
  registry, answers with a value or raises an exception, and leaves a new state. The
  lookups by name answer a dict or \<^verbatim>\<open>None\<close>, the other methods a dict.
\<close>

record 's CvpClient =
  api_get_container_by_name :: "string \<Rightarrow> 's \<Rightarrow> (exn + pydict option) \<times> 's"
  api_filter_topology :: "pyval \<Rightarrow> 's \<Rightarrow> (exn + pydict) \<times> 's"
  api_get_configlet_by_name :: "string \<Rightarrow> 's \<Rightarrow> (exn + pydict option) \<times> 's"
  api_add_container :: "string \<Rightarrow> pyval \<Rightarrow> string \<Rightarrow> 's \<Rightarrow> (exn + pydict) \<times> 's"
  api_delete_container :: "string \<Rightarrow> pyval \<Rightarrow> pyval \<Rightarrow> string \<Rightarrow> 's \<Rightarrow> (exn + pydict) \<times> 's"
  api_apply_configlets_to_container ::
    "pydict list \<Rightarrow> pydict \<Rightarrow> bool \<Rightarrow> 's \<Rightarrow> (exn + pydict) \<times> 's"
  api_remove_configlets_from_container ::
    "pydict list \<Rightarrow> pydict \<Rightarrow> bool \<Rightarrow> 's \<Rightarrow> (exn + pydict) \<times> 's"

text \<open>The calls that the client receives, recorded in the order in which they are made.\<close>

datatype api_call =
    Get_container_by_name string
  | Filter_topology pyval
  | Get_configlet_by_name string
  | Add_container string pyval string
  | Delete_container string pyval pyval string
  | Apply_configlets_to_container "pydict list" pydict bool
  | Remove_configlets_from_container "pydict list" pydict bool

fun is_lookup :: "api_call \<Rightarrow> bool" where
  "is_lookup (Get_container_by_name n) = True"
| "is_lookup (Filter_topology k) = True"
| "is_lookup (Get_configlet_by_name n) = True"
| "is_lookup (Add_container n k p) = False"
| "is_lookup (Delete_container n k pk p) = False"
| "is_lookup (Apply_configlets_to_container cs c t) = False"
| "is_lookup (Remove_configlets_from_container cs c t) = False"

record 's world =
  cv :: 's
  calls :: "api_call list"

type_synonym ('s, 'a) py = "'s world \<Rightarrow> (exn + 'a) \<times> 's world"

definition ret :: "'a \<Rightarrow> ('s, 'a) py" where
  "ret x w = (Inr x, w)"

definition raise :: "exn \<Rightarrow> ('s, 'a) py" where
  "raise e w = (Inl e, w)"

definition lift :: "exn + 'a \<Rightarrow> ('s, 'a) py" where
  "lift r w = (r, w)"

definition py_bind :: "('s, 'a) py \<Rightarrow> ('a \<Rightarrow> ('s, 'b) py) \<Rightarrow> ('s, 'b) py" where
  "py_bind m f w = (case m w of (Inl e, w') \<Rightarrow> (Inl e, w') | (Inr x, w') \<Rightarrow> f x w')"

text \<open>A call of a method of the client: the call is recorded and the registry moves on.\<close>

definition invoke :: "api_call \<Rightarrow> ('s \<Rightarrow> (exn + 'a) \<times> 's) \<Rightarrow> ('s, 'a) py" where
  "invoke c f w = (case f (cv w) of (r, s) \<Rightarrow> (r, \<lparr>cv = s, calls = calls w @ [c]\<rparr>))"

definition get_container_by_name :: "'s CvpClient \<Rightarrow> string \<Rightarrow> ('s, pydict option) py" where
  "get_container_by_name cl n = invoke (Get_container_by_name n) (api_get_container_by_name cl n)"

definition filter_topology :: "'s CvpClient \<Rightarrow> pyval \<Rightarrow> ('s, pydict) py" where
  "filter_topology cl node_id = invoke (Filter_topology node_id) (api_filter_topology cl node_id)"

definition get_configlet_by_name :: "'s CvpClient \<Rightarrow> string \<Rightarrow> ('s, pydict option) py" where
  "get_configlet_by_name cl n = invoke (Get_configlet_by_name n) (api_get_configlet_by_name cl n)"

text \<open>
  \<^verbatim>\<open>try: resp = call except CvpApiError: log else: use resp\<close>: the caught exception leaves
  the result as it is, the \<^verbatim>\<open>else\<close> branch is outside of the handler, and every other
  exception goes on to the caller.
\<close>

definition try_call ::
  "('s, pydict) py \<Rightarrow> CvApiResult \<Rightarrow> (pydict \<Rightarrow> exn + CvApiResult) \<Rightarrow> ('s, CvApiResult) py" where
  "try_call call unchanged on_resp w =
     (case call w of
        (Inl e, w') \<Rightarrow> (if e = CvpApiError then (Inr unchanged, w') else (Inl e, w'))
      | (Inr resp, w') \<Rightarrow> (on_resp resp, w'))"

section \<open>CvContainerTools\<close>

text \<open>\<^verbatim>\<open>_standard_output\<close>: the entries of a dict whose key is one of the standard keys.\<close>

definition standard_keys :: "string list" where
  "standard_keys = [FIELD_KEY, FIELD_NAME, FIELD_COUNT_CONTAINERS, FIELD_COUNT_DEVICES, FIELD_PARENT_ID]"

definition standard_output :: "pydict \<Rightarrow> pydict" where
  "standard_output source = filter (\<lambda>(k, v). k \<in> set standard_keys) source"

text \<open>\<^verbatim>\<open>_get_configlet_info\<close>.\<close>

definition get_configlet_info :: "'s CvpClient \<Rightarrow> string \<Rightarrow> ('s, pydict option) py" where
  "get_configlet_info cl configlet_name =
     py_bind (get_configlet_by_name cl configlet_name) (\<lambda>data.
       case data of
         Some d \<Rightarrow> ret (Some (standard_output d))
       | None \<Rightarrow> ret None)"

text \<open>
  \<^verbatim>\<open>[entry.get('name') for entry in configlets if entry.get('name')]\<close> and the name of the
  response, \<^verbatim>\<open>container['name'] + ':' + ':'.join(configlet_names)\<close>.
\<close>

definition configlet_names :: "pydict list \<Rightarrow> pyval list" where
  "configlet_names configlets =
     map (\<lambda>entry. dict_get entry ''name'') (filter (\<lambda>entry. truthy (dict_get entry ''name'')) configlets)"

definition response_name :: "pyval \<Rightarrow> pyval list \<Rightarrow> exn + string" where
  "response_name container_name names =
     sum_bind (str_add container_name '':'') (\<lambda>prefix.
       sum_bind (str_join '':'' names) (\<lambda>joined. Inr (prefix @ joined)))"

text \<open>
  The use of the answer of the configlet calls:
  \<^verbatim>\<open>if 'data' in resp and resp['data']['status'] == 'success'\<close>.
\<close>

definition configlet_resp :: "CvApiResult \<Rightarrow> pydict \<Rightarrow> exn + CvApiResult" where
  "configlet_resp change_response resp =
     (case map_of resp ''data'' of
        None \<Rightarrow> Inr change_response
      | Some d \<Rightarrow>
          sum_bind (py_getitem d ''status'') (\<lambda>status.
            if status = PStr ''success''
            then sum_bind (py_getitem d ''taskIds'') (\<lambda>t.
                   Inr (change_response\<lparr>taskIds := t, success := True\<rparr>))
            else Inr change_response))"

text \<open>\<^verbatim>\<open>_configlet_add\<close>; the container is \<^verbatim>\<open>None\<close> or a dict.\<close>

definition configlet_add ::
  "'s CvpClient \<Rightarrow> bool \<Rightarrow> pydict option \<Rightarrow> pydict list \<Rightarrow> bool \<Rightarrow> ('s, CvApiResult) py" where
  "configlet_add cl check_mode container configlets save_topology =
     (case container of
        None \<Rightarrow> ret (CvApiResult_init ''Undefined'')
      | Some c \<Rightarrow>
          py_bind (lift (sum_bind (dict_getitem c ''name'') (\<lambda>n.
                     response_name n (configlet_names configlets)))) (\<lambda>new_name.
            let change_response = (CvApiResult_init ''Undefined'')\<lparr>name := new_name\<rparr> in
            if check_mode
            then ret (change_response\<lparr>success := True, taskIds := PList [PStr ''check_mode'']\<rparr>)
            else try_call
                   (invoke (Apply_configlets_to_container configlets c save_topology)
                      (api_apply_configlets_to_container cl configlets c save_topology))
                   change_response (configlet_resp change_response)))"

text \<open>
  \<^verbatim>\<open>_configlet_del\<close>: \<^verbatim>\<open>container['name']\<close> is evaluated without a test, and raises
  \<^verbatim>\<open>TypeError\<close> when the container is \<^verbatim>\<open>None\<close>.
\<close>

definition configlet_del ::
  "'s CvpClient \<Rightarrow> bool \<Rightarrow> pydict option \<Rightarrow> pydict list \<Rightarrow> bool \<Rightarrow> ('s, CvApiResult) py" where
  "configlet_del cl check_mode container configlets save_topology =
     (case container of
        None \<Rightarrow> raise TypeError
      | Some c \<Rightarrow>
          py_bind (lift (sum_bind (dict_getitem c ''name'') (\<lambda>n.
                     response_name n (configlet_names configlets)))) (\<lambda>new_name.
            let change_response = CvApiResult_init new_name in
            if check_mode
            then ret (change_response\<lparr>success := True, taskIds := PList [PStr ''check_mode'']\<rparr>)
            else try_call
                   (invoke (Remove_configlets_from_container configlets c save_topology)
                      (api_remove_configlets_from_container cl configlets c save_topology))
                   change_response (configlet_resp change_response)))"

text \<open>
  \<^verbatim>\<open>get_container_info\<close>: the container is looked up a second time for its key, then its
  facts are read from the topology.
\<close>

definition get_container_info :: "'s CvpClient \<Rightarrow> string \<Rightarrow> ('s, pydict option) py" where
  "get_container_info cl container_name =
     py_bind (get_container_by_name cl container_name) (\<lambda>cv_response.
       case cv_response of
         None \<Rightarrow> ret None
       | Some d \<Rightarrow>
           if map_of d FIELD_KEY \<noteq> None
           then py_bind (get_container_by_name cl container_name) (\<lambda>again.
                  py_bind (lift (opt_getitem again FIELD_KEY)) (\<lambda>container_id.
                    py_bind (filter_topology cl container_id) (\<lambda>topo.
                      py_bind (lift (dict_getitem topo FIELD_TOPOLOGY)) (\<lambda>container_facts.
                        case container_facts of
                          PDict facts \<Rightarrow> ret (Some (standard_output facts))
                        | _ \<Rightarrow> raise AttributeError))))
           else ret None)"

text \<open>\<^verbatim>\<open>get_container_id\<close>: \<^verbatim>\<open>FIELD_KEY in container_info\<close> fails on \<^verbatim>\<open>None\<close>.\<close>

definition get_container_id :: "'s CvpClient \<Rightarrow> string \<Rightarrow> ('s, pyval) py" where
  "get_container_id cl container_name =
     py_bind (get_container_by_name cl container_name) (\<lambda>container_info.
       case container_info of
         None \<Rightarrow> raise TypeError
       | Some d \<Rightarrow> ret (case map_of d FIELD_KEY of Some k \<Rightarrow> k | None \<Rightarrow> PNone))"

text \<open>\<^verbatim>\<open>is_empty\<close>: the membership tests fail on \<^verbatim>\<open>None\<close>.\<close>

definition is_empty :: "'s CvpClient \<Rightarrow> string \<Rightarrow> ('s, bool) py" where
  "is_empty cl container_name =
     py_bind (get_container_info cl container_name) (\<lambda>container.
       case container of
         None \<Rightarrow> raise TypeError
       | Some c \<Rightarrow>
           (case map_of c FIELD_COUNT_CONTAINERS of
              None \<Rightarrow> ret False
            | Some n_containers \<Rightarrow>
                (case map_of c FIELD_COUNT_DEVICES of
                   None \<Rightarrow> ret False
                 | Some n_devices \<Rightarrow> ret (eq_zero n_containers \<and> eq_zero n_devices))))"

text \<open>
  \<^verbatim>\<open>is_container_exists\<close>: when the lookup raises \<^verbatim>\<open>CvpApiError\<close> the handler logs it
  and the test that follows reads \<^verbatim>\<open>cv_data\<close>, which was never bound.
\<close>

definition is_container_exists :: "'s CvpClient \<Rightarrow> string \<Rightarrow> ('s, bool) py" where
  "is_container_exists cl container_name w =
     (case get_container_by_name cl container_name w of
        (Inl e, w') \<Rightarrow> (if e = CvpApiError then (Inl UnboundLocalError, w') else (Inl e, w'))
      | (Inr cv_data, w') \<Rightarrow> (Inr (cv_data \<noteq> None), w'))"

text \<open>
  The use of the answer of the container calls: \<^verbatim>\<open>resp['data']['status'] == "success"\<close>,
  with no test of the presence of \<^verbatim>\<open>data\<close>.
\<close>

definition container_resp ::
  "(CvApiResult \<Rightarrow> CvApiResult) \<Rightarrow> CvApiResult \<Rightarrow> pydict \<Rightarrow> exn + CvApiResult" where
  "container_resp on_success change_result resp =
     sum_bind (dict_getitem resp ''data'') (\<lambda>d.
       sum_bind (py_getitem d ''status'') (\<lambda>status.
         if status = PStr ''success''
         then sum_bind (py_getitem d ''taskIds'') (\<lambda>t.
                Inr (on_success (change_result\<lparr>taskIds := t, success := True\<rparr>)))
         else Inr change_result))"

text \<open>\<^verbatim>\<open>create_container\<close>.\<close>

definition create_container :: "'s CvpClient \<Rightarrow> bool \<Rightarrow> string \<Rightarrow> string \<Rightarrow> ('s, CvApiResult) py" where
  "create_container cl check_mode container parent =
     (let change_result = CvApiResult_init container in
      py_bind (is_container_exists cl parent) (\<lambda>parent_exists.
        if parent_exists
        then py_bind (get_container_by_name cl parent) (\<lambda>parent_info.
               py_bind (lift (opt_getitem parent_info FIELD_KEY)) (\<lambda>parent_id.
                 py_bind (is_container_exists cl container) (\<lambda>container_exists.
                   if container_exists = False
                   then (if check_mode
                         then ret (change_result\<lparr>success := True, changed := True\<rparr>)
                         else try_call
                                (invoke (Add_container container parent_id parent)
                                   (api_add_container cl container parent_id parent))
                                change_result
                                (container_resp (\<lambda>r. r\<lparr>count := count r + 1\<rparr>) change_result))
                   else ret change_result)))
        else ret change_result))"

text \<open>\<^verbatim>\<open>delete_container\<close>; \<^verbatim>\<open>and\<close> evaluates \<^verbatim>\<open>is_empty\<close> only for an existing container.\<close>

definition delete_container :: "'s CvpClient \<Rightarrow> bool \<Rightarrow> string \<Rightarrow> string \<Rightarrow> ('s, CvApiResult) py" where
  "delete_container cl check_mode container parent =
     (let change_result = CvApiResult_init container in
      py_bind (is_container_exists cl container) (\<lambda>container_exists.
        py_bind (if container_exists then is_empty cl container else ret False) (\<lambda>deletable.
          if deletable
          then py_bind (get_container_id cl parent) (\<lambda>parent_id.
                 py_bind (get_container_id cl container) (\<lambda>container_id.
                   if check_mode
                   then ret (change_result\<lparr>success := True\<rparr>)
                   else try_call
                          (invoke (Delete_container container container_id parent_id parent)
                             (api_delete_container cl container container_id parent_id parent))
                          change_result
                          (container_resp (\<lambda>r. r) change_result)))
          else ret change_result)))"

text \<open>
  The loop of \<^verbatim>\<open>configlets_attach\<close> and \<^verbatim>\<open>configlets_detach\<close> that resolves the names:
  a name whose lookup answers \<^verbatim>\<open>None\<close> adds nothing to the list.
\<close>

fun resolve_configlets ::
  "'s CvpClient \<Rightarrow> string list \<Rightarrow> pydict list \<Rightarrow> 's world \<Rightarrow> (exn + pydict list) \<times> 's world" where
  "resolve_configlets cl [] acc w = (Inr acc, w)"
| "resolve_configlets cl (configlet # rest) acc w =
     (case get_configlet_info cl configlet w of
        (Inl e, w') \<Rightarrow> (Inl e, w')
      | (Inr data, w') \<Rightarrow>
          resolve_configlets cl rest (case data of None \<Rightarrow> acc | Some d \<Rightarrow> acc @ [d]) w')"

definition configlets_attach ::
  "'s CvpClient \<Rightarrow> bool \<Rightarrow> string \<Rightarrow> string list \<Rightarrow> ('s, CvApiResult) py" where
  "configlets_attach cl check_mode container configlets =
     py_bind (get_container_info cl container) (\<lambda>container_info.
       py_bind (resolve_configlets cl configlets []) (\<lambda>attach_configlets.
         configlet_add cl check_mode container_info attach_configlets True))"

definition configlets_detach ::
  "'s CvpClient \<Rightarrow> bool \<Rightarrow> string \<Rightarrow> string list \<Rightarrow> ('s, CvApiResult) py" where
  "configlets_detach cl check_mode container configlets =
     py_bind (get_container_info cl container) (\<lambda>container_info.
       py_bind (resolve_configlets cl configlets []) (\<lambda>detach_configlets.
         configlet_del cl check_mode container_info detach_configlets True))"

section \<open>Recorded calls\<close>

text \<open>
  The run from \<open>w\<close> to \<open>w'\<close> kept the calls recorded before it and added lookups only:
  no call that creates, deletes, attaches or detaches.
\<close>

definition only_lookups :: "'s world \<Rightarrow> 's world \<Rightarrow> bool" where
  "only_lookups w w' =
     (take (length (calls w)) (calls w') = calls w \<and>
      list_all is_lookup (drop (length (calls w)) (calls w')))"

definition reads_only :: "('s, 'a) py \<Rightarrow> bool" where
  "reads_only m = (\<forall>w. only_lookups w (snd (m w)))"

section \<open>Concrete registries\<close>

text \<open>
  Two clients on which the operations are run. The first one is a registry in memory: a list
  of containers (name, name of the parent, number of devices) and one configlet; its
  methods answer the way CloudVision does. The second one raises \<^verbatim>\<open>CvpApiError\<close> on
  every lookup of a container.
\<close>

type_synonym registry = "(string \<times> string \<times> int) list"

definition success_resp :: pydict where
  "success_resp = [(''data'', PDict [(''status'', PStr ''success''), (''taskIds'', PList [])])]"

definition container_key :: "string \<Rightarrow> pyval" where
  "container_key n = PStr (''container_'' @ n)"

definition container_facts :: "registry \<Rightarrow> string \<times> string \<times> int \<Rightarrow> pydict" where
  "container_facts s c =
     (case c of (n, p, d) \<Rightarrow>
        [(''key'', container_key n),
         (''name'', PStr n),
         (''type'', PStr ''container''),
         (''childContainerCount'', PInt (int (length (filter (\<lambda>(m, q, e). q = n) s)))),
         (''childNetElementCount'', PInt d),
         (''parentContainerId'', container_key p)])"

definition registry_client :: "registry CvpClient" where
  "registry_client =
     \<lparr>api_get_container_by_name = (\<lambda>n s.
        (Inr (if n \<in> set (map fst s) then Some [(''key'', container_key n), (''name'', PStr n)]
              else None), s)),
      api_filter_topology = (\<lambda>node_id s.
        (case filter (\<lambda>(n, p, d). container_key n = node_id) s of
           [] \<Rightarrow> (Inl CvpApiError, s)
         | c # cs \<Rightarrow> (Inr [(''topology'', PDict (container_facts s c))], s))),
      api_get_configlet_by_name = (\<lambda>n s.
        (Inr (if n = ''ASE_DEVICE-ALIASES''
              then Some [(''key'', PStr ''configlet_1''), (''name'', PStr n),
                         (''config'', PStr ''alias a show version'')]
              else None), s)),
      api_add_container = (\<lambda>n parent_key parent_name s.
        (Inr success_resp, s @ [(n, parent_name, 0)])),
      api_delete_container = (\<lambda>n k parent_key parent_name s.
        (Inr success_resp, filter (\<lambda>(m, q, e). m \<noteq> n) s)),
      api_apply_configlets_to_container = (\<lambda>cs c t s. (Inr success_resp, s)),
      api_remove_configlets_from_container = (\<lambda>cs c t s. (Inr success_resp, s))\<rparr>"

definition failing_client :: "unit CvpClient" where
  "failing_client =
     \<lparr>api_get_container_by_name = (\<lambda>n s. (Inl CvpApiError, s)),
      api_filter_topology = (\<lambda>node_id s. (Inl CvpApiError, s)),
      api_get_configlet_by_name = (\<lambda>n s. (Inl CvpApiError, s)),
      api_add_container = (\<lambda>n parent_key parent_name s. (Inl CvpApiError, s)),
      api_delete_container = (\<lambda>n k parent_key parent_name s. (Inl CvpApiError, s)),
      api_apply_configlets_to_container = (\<lambda>cs c t s. (Inl CvpApiError, s)),
      api_remove_configlets_from_container = (\<lambda>cs c t s. (Inl CvpApiError, s))\<rparr>"

definition start :: "'s \<Rightarrow> 's world" where
  "start s = \<lparr>cv = s, calls = []\<rparr>"

section \<open>The ordering of the topology\<close>

lemmas order_defs = ordered_list_containers_def place_container_def parent_field_def
  declared_parent_def

lemma place_container_cases:
  assumes "place_container topo root k res = Inr r"
  obtains d p where "map_of topo k = Some d" "map_of d parent_field = Some p"
    "r = res \<or> (r = res @ [k] \<and> (p = PStr root \<or> (\<exists>e \<in> set res. PStr e = p)))"
  using assms
  by (auto simp: place_container_def Let_def split: option.splits if_splits)

lemma place_container_keeps:
  assumes pc: "place_container topo root k res = Inr r"
      and dg: "dangling topo root c" and c: "c \<notin> set res" and sub: "set res \<subseteq> set (map fst topo)"
      and k: "k \<in> set (map fst topo)"
  shows "c \<notin> set r \<and> set r \<subseteq> set (map fst topo)"
proof -
  from pc obtain d p where d: "map_of topo k = Some d" and p: "map_of d parent_field = Some p"
    and r: "r = res \<or> (r = res @ [k] \<and> (p = PStr root \<or> (\<exists>e \<in> set res. PStr e = p)))"
    by (rule place_container_cases)
  from r have "set r \<subseteq> set res \<union> {k}" by auto
  with sub k have sub': "set r \<subseteq> set (map fst topo)" by blast
  have "c \<notin> set r"
  proof
    assume cr: "c \<in> set r"
    with r c have kc: "k = c" by auto
    with d p have dp: "declared_parent topo c = Some p" by (simp add: declared_parent_def)
    with dg have n1: "p \<noteq> PStr root" and n2: "\<forall>j \<in> set (map fst topo). p \<noteq> PStr j"
      by (simp_all add: dangling_def)
    from r cr c n1 obtain e where "e \<in> set res" "PStr e = p" by auto
    with sub n2 show False by blast
  qed
  with sub' show ?thesis by simp
qed

lemma scan_pass_keeps:
  assumes "scan_pass topo root ks res = Inr r"
      and "dangling topo root c" and "c \<notin> set res" and "set res \<subseteq> set (map fst topo)"
      and "set ks \<subseteq> set (map fst topo)"
  shows "c \<notin> set r \<and> set r \<subseteq> set (map fst topo)"
  using assms
proof (induction ks arbitrary: res)
  case Nil
  then show ?case by simp
next
  case (Cons k ks)
  from Cons.prems(1) obtain r1 where p: "place_container topo root k res = Inr r1"
    and s: "scan_pass topo root ks r1 = Inr r"
    by (auto split: sum.splits)
  from Cons.prems have "k \<in> set (map fst topo)" by simp
  from place_container_keeps[OF p Cons.prems(2) Cons.prems(3) Cons.prems(4) this]
  have "c \<notin> set r1" "set r1 \<subseteq> set (map fst topo)" by simp_all
  with Cons.IH[OF s Cons.prems(2)] Cons.prems(5) show ?case by simp
qed

lemma order_loop_keeps:
  assumes "order_loop topo root res = Some out"
  shows "dangling topo root c \<Longrightarrow> c \<notin> set res \<Longrightarrow> set res \<subseteq> set (map fst topo)
         \<Longrightarrow> out = Inr l \<Longrightarrow> c \<notin> set l"
  using assms
proof (induction arbitrary: l rule: order_loop.raw_induct[rotated 1, consumes 1])
  case (1 order_loop topo root res out)
  show ?case
  proof (cases "length res < length topo")
    case False
    with 1 show ?thesis by simp
  next
    case True
    with 1(2) 1(6) obtain r where s: "scan_pass topo root (map fst topo) res = Inr r"
      and o: "order_loop topo root r = Some out"
      by (auto split: sum.splits)
    from scan_pass_keeps[OF s 1(3) 1(4) 1(5)] have "c \<notin> set r" "set r \<subseteq> set (map fst topo)" by simp_all
    from 1(1)[OF o 1(3) this 1(6)] show ?thesis .
  qed
qed

lemma place_container_no_root:
  assumes "declared_parent topo k = Some p" "p \<noteq> PStr root"
  shows "place_container topo root k [] = Inr []"
  using assms by (auto simp: place_container_def declared_parent_def split: option.splits)

lemma scan_pass_no_root:
  assumes "\<forall>k \<in> set ks. \<exists>p. declared_parent topo k = Some p \<and> p \<noteq> PStr root"
  shows "scan_pass topo root ks [] = Inr []"
  using assms by (induction ks) (auto simp: place_container_no_root)

lemma order_loop_stalls:
  assumes "order_loop topo root res = Some out"
  shows "res = [] \<Longrightarrow> topo \<noteq> [] \<Longrightarrow> scan_pass topo root (map fst topo) [] = Inr [] \<Longrightarrow> False"
  using assms
proof (induction rule: order_loop.raw_induct[rotated 1, consumes 1])
  case (1 order_loop topo root res out)
  then have "order_loop topo root [] = Some out" by simp
  from 1(1)[OF this] 1 show ?case by simp
qed

lemma no_root_scan:
  assumes "all_declare_parent topo" "\<not> has_root_child topo root"
  shows "scan_pass topo root (map fst topo) [] = Inr []"
  apply (rule scan_pass_no_root)
  using assms by (auto simp: all_declare_parent_def has_root_child_def)

lemma never_error:
  assumes "all_declare_parent topo" "set ks \<subseteq> set (map fst topo)"
  shows "\<exists>r. scan_pass topo root ks res = Inr r"
  using assms
proof (induction ks arbitrary: res)
  case Nil then show ?case by simp
next
  case (Cons k ks)
  then have "declared_parent topo k \<noteq> None" by (auto simp: all_declare_parent_def)
  then obtain r1 where "place_container topo root k res = Inr r1"
    by (auto simp: place_container_def declared_parent_def Let_def split: option.splits)
  with Cons show ?case by simp
qed

lemma order_loop_no_error:
  assumes "order_loop topo root res = Some out"
  shows "all_declare_parent topo \<Longrightarrow> \<exists>l. out = Inr l"
  using assms
proof (induction rule: order_loop.raw_induct[rotated 1, consumes 1])
  case (1 order_loop topo root res out)
  show ?case
  proof (cases "length res < length topo")
    case False with 1 show ?thesis by auto
  next
    case True
    from never_error[OF 1(3), of "map fst topo" root res] obtain r where
      "scan_pass topo root (map fst topo) res = Inr r" by auto
    with True 1 show ?thesis by auto
  qed
qed

text \<open>
  C8. The ordering of the empty topology is the empty list: the loop is not entered.
\<close>

theorem ordered_list_containers_empty:
  "ordered_list_containers [] root_name = Some (Inr [])"
  by (simp add: ordered_list_containers_def order_loop.simps)

text \<open>
  C1. The claim asks for a permutation of the keys with every parent before its children.
  On the well-formed topology \<^verbatim>\<open>{B: parent=A, A: parent=Tenant}\<close>, where the child is
  written before its parent, the first pass places A only, and the second pass places B and
  then appends A again, since the test of the root parent does not look at the list: the
  result holds A twice. With \<^verbatim>\<open>{D: parent=B, B: parent=A, A: parent=Tenant}\<close> the
  repeated A makes the list as long as the topology before D is placed, so D is missing.
\<close>

theorem ordered_list_containers_repeats_root:
  "ordered_list_containers
     [(''B'', [(''parent_container'', PStr ''A'')]),
      (''A'', [(''parent_container'', PStr ''Tenant'')])] ''Tenant''
   = Some (Inr [''A'', ''B'', ''A''])
   \<and> ordered_list_containers
     [(''D'', [(''parent_container'', PStr ''B'')]),
      (''B'', [(''parent_container'', PStr ''A'')]),
      (''A'', [(''parent_container'', PStr ''Tenant'')])] ''Tenant''
   = Some (Inr [''A'', ''B'', ''A''])"
  by (simp add: order_defs order_loop.simps)

text \<open>
  C2, as stated, fails: on \<^verbatim>\<open>{A: parent=Tenant, B: parent=X}\<close> the parent of B is
  neither the root nor a key, and the ordering returns the list \<open>[A, A]\<close> and no error.
\<close>

theorem ordered_list_containers_dangling_padded:
  "dangling [(''A'', [(''parent_container'', PStr ''Tenant'')]),
             (''B'', [(''parent_container'', PStr ''X'')])] ''Tenant'' ''B''
   \<and> ordered_list_containers
        [(''A'', [(''parent_container'', PStr ''Tenant'')]),
         (''B'', [(''parent_container'', PStr ''X'')])] ''Tenant''
      = Some (Inr [''A'', ''A''])"
  by (simp add: order_defs dangling_def order_loop.simps)

text \<open>
  C2, amended. For a container whose declared parent is neither the root name nor a key of
  the topology, the ordering has no error to report: the container is in no list that the
  ordering returns; when every container declares a parent no exception is raised; and
  when, besides, no container has the root name as its parent, the ordering never returns.
\<close>

theorem ordered_list_containers_dangling:
  assumes "dangling topo root_name c"
  shows "(\<forall>l. ordered_list_containers topo root_name = Some (Inr l) \<longrightarrow> c \<notin> set l)
       \<and> (all_declare_parent topo \<longrightarrow> (\<forall>e. ordered_list_containers topo root_name \<noteq> Some (Inl e)))
       \<and> (all_declare_parent topo \<and> \<not> has_root_child topo root_name
            \<longrightarrow> ordered_list_containers topo root_name = None)"
proof (intro conjI allI impI)
  fix l assume "ordered_list_containers topo root_name = Some (Inr l)"
  then have "order_loop topo root_name [] = Some (Inr l)"
    by (simp add: ordered_list_containers_def)
  from order_loop_keeps[OF this assms] show "c \<notin> set l" by simp
next
  fix e assume a: "all_declare_parent topo"
  show "ordered_list_containers topo root_name \<noteq> Some (Inl e)"
  proof
    assume "ordered_list_containers topo root_name = Some (Inl e)"
    then have "order_loop topo root_name [] = Some (Inl e)"
      by (simp add: ordered_list_containers_def)
    from order_loop_no_error[OF this a] show False by simp
  qed
next
  assume a: "all_declare_parent topo \<and> \<not> has_root_child topo root_name"
  from assms have ne: "topo \<noteq> []"
    by (auto simp: dangling_def declared_parent_def split: option.splits)
  from a have sc: "scan_pass topo root_name (map fst topo) [] = Inr []"
    by (simp add: no_root_scan)
  show "ordered_list_containers topo root_name = None"
  proof (cases "ordered_list_containers topo root_name")
    case None
    then show ?thesis .
  next
    case (Some out)
    then have "order_loop topo root_name [] = Some out"
      by (simp add: ordered_list_containers_def)
    from order_loop_stalls[OF this refl ne sc] show ?thesis ..
  qed
qed

theorem ordered_list_containers_dangling_witness:
  "dangling [(''A'', [(''parent_container'', PStr ''X'')])] ''Tenant'' ''A''
   \<and> all_declare_parent [(''A'', [(''parent_container'', PStr ''X'')])]
   \<and> \<not> has_root_child [(''A'', [(''parent_container'', PStr ''X'')])] ''Tenant''
   \<and> ordered_list_containers [(''A'', [(''parent_container'', PStr ''X'')])] ''Tenant'' = None"
proof -
  have d: "dangling [(''A'', [(''parent_container'', PStr ''X'')])] ''Tenant'' ''A''"
    by (simp add: dangling_def declared_parent_def parent_field_def)
  have a: "all_declare_parent [(''A'', [(''parent_container'', PStr ''X'')])]"
    by (simp add: all_declare_parent_def declared_parent_def parent_field_def)
  have r: "\<not> has_root_child [(''A'', [(''parent_container'', PStr ''X'')])] ''Tenant''"
    by (simp add: has_root_child_def declared_parent_def parent_field_def)
  from ordered_list_containers_dangling[OF d] d a r show ?thesis by simp
qed

section \<open>The configlets of the topology\<close>

text \<open>
  C9. \<^verbatim>\<open>has_configlets\<close> answers true exactly when \<^verbatim>\<open>get_configlets\<close> answers a value
  other than \<^verbatim>\<open>None\<close>; for a name that is not a key of the topology the answers are
  false and \<^verbatim>\<open>None\<close>; and an empty list of configlets counts as present.
\<close>

theorem has_configlets_iff:
  "(has_configlets topo container_name configlet_key
      \<longleftrightarrow> get_configlets topo container_name configlet_key \<noteq> PNone)
   \<and> (map_of topo container_name = None \<longrightarrow>
        \<not> has_configlets topo container_name configlet_key
        \<and> get_configlets topo container_name configlet_key = PNone)
   \<and> (\<forall>d. map_of topo container_name = Some d \<and> map_of d configlet_key = Some (PList [])
        \<longrightarrow> has_configlets topo container_name configlet_key
            \<and> get_configlets topo container_name configlet_key = PList [])"
  by (auto simp: has_configlets_def get_configlets_def get_container_data_def)

theorem has_configlets_iff_witness:
  "\<not> has_configlets [(''DC1'', [(''parent_container'', PStr ''Tenant''), (''configlets'', PList [])])]
        ''DC2'' ''configlets''
   \<and> has_configlets [(''DC1'', [(''parent_container'', PStr ''Tenant''), (''configlets'', PList [])])]
        ''DC1'' ''configlets''"
  using has_configlets_iff[of "[(''DC1'', [(''parent_container'', PStr ''Tenant''), (''configlets'', PList [])])]"
          "''DC2''" "''configlets''"]
        has_configlets_iff[of "[(''DC1'', [(''parent_container'', PStr ''Tenant''), (''configlets'', PList [])])]"
          "''DC1''" "''configlets''"]
  by simp

section \<open>The calls that an operation records\<close>

lemmas field_defs = FIELD_KEY_def FIELD_NAME_def FIELD_COUNT_CONTAINERS_def FIELD_COUNT_DEVICES_def
  FIELD_PARENT_ID_def FIELD_TOPOLOGY_def
lemmas monad_defs = Let_def ret_def raise_def lift_def py_bind_def invoke_def try_call_def sum_bind_def
lemmas op_defs = get_container_by_name_def filter_topology_def get_configlet_by_name_def
  get_configlet_info_def get_container_info_def get_container_id_def is_empty_def
  is_container_exists_def create_container_def delete_container_def configlets_attach_def
  configlets_detach_def configlet_add_def configlet_del_def configlet_resp_def container_resp_def
  response_name_def configlet_names_def standard_output_def standard_keys_def dict_getitem_def dict_get_def
  CvApiResult_init_def
lemmas reg_defs = registry_client_def failing_client_def start_def success_resp_def container_key_def
  container_facts_def

lemma only_lookups_iff:
  "only_lookups w w' \<longleftrightarrow> (\<exists>new. calls w' = calls w @ new \<and> list_all is_lookup new)"
proof
  assume a: "only_lookups w w'"
  have "calls w' = take (length (calls w)) (calls w') @ drop (length (calls w)) (calls w')"
    by simp
  with a have "calls w' = calls w @ drop (length (calls w)) (calls w')"
    by (simp add: only_lookups_def)
  with a show "\<exists>new. calls w' = calls w @ new \<and> list_all is_lookup new"
    unfolding only_lookups_def by blast
next
  assume "\<exists>new. calls w' = calls w @ new \<and> list_all is_lookup new"
  then show "only_lookups w w'" by (auto simp: only_lookups_def)
qed

lemma only_lookups_refl: "only_lookups w w"
  by (simp add: only_lookups_def)

lemma only_lookups_trans:
  "only_lookups w w1 \<Longrightarrow> only_lookups w1 w2 \<Longrightarrow> only_lookups w w2"
  unfolding only_lookups_iff by auto

lemma reads_onlyD: "reads_only m \<Longrightarrow> m w = (r, w') \<Longrightarrow> only_lookups w w'"
  unfolding reads_only_def by (metis snd_conv)

lemma reads_only_ret: "reads_only (ret x)"
  by (simp add: reads_only_def ret_def only_lookups_refl)

lemma reads_only_raise: "reads_only (raise e)"
  by (simp add: reads_only_def raise_def only_lookups_refl)

lemma reads_only_lift: "reads_only (lift r)"
  by (simp add: reads_only_def lift_def only_lookups_refl)

lemma reads_only_bind:
  assumes "reads_only m" "\<And>x. reads_only (f x)"
  shows "reads_only (py_bind m f)"
  unfolding reads_only_def
proof
  fix w
  obtain r w1 where m: "m w = (r, w1)" by (cases "m w")
  from reads_onlyD[OF assms(1) m] have l1: "only_lookups w w1" .
  show "only_lookups w (snd (py_bind m f w))"
  proof (cases r)
    case (Inl e)
    with m l1 show ?thesis by (simp add: py_bind_def)
  next
    case (Inr x)
    obtain r2 w2 where f: "f x w1 = (r2, w2)" by (cases "f x w1")
    from reads_onlyD[OF assms(2) f] l1 have "only_lookups w w2" by (rule only_lookups_trans[rotated])
    with m Inr f show ?thesis by (simp add: py_bind_def)
  qed
qed

lemma reads_only_invoke: "is_lookup c \<Longrightarrow> reads_only (invoke c f)"
  by (simp add: reads_only_def invoke_def only_lookups_def split: prod.splits)

lemma reads_only_get_container_by_name: "reads_only (get_container_by_name cl n)"
  by (simp add: get_container_by_name_def reads_only_invoke)

lemma reads_only_filter_topology: "reads_only (filter_topology cl k)"
  by (simp add: filter_topology_def reads_only_invoke)

lemma reads_only_get_configlet_by_name: "reads_only (get_configlet_by_name cl n)"
  by (simp add: get_configlet_by_name_def reads_only_invoke)

lemmas reads_only_intros = reads_only_ret reads_only_raise reads_only_lift reads_only_bind
  reads_only_get_container_by_name reads_only_filter_topology reads_only_get_configlet_by_name

lemma reads_only_get_configlet_info: "reads_only (get_configlet_info cl n)"
  unfolding get_configlet_info_def
  by (intro reads_only_intros) (simp add: reads_only_intros split: option.splits)

lemma reads_only_get_container_info: "reads_only (get_container_info cl n)"
  unfolding get_container_info_def
  apply (rule reads_only_bind, rule reads_only_get_container_by_name)
  apply (simp split: option.splits add: reads_only_intros)
  apply (intro allI impI reads_only_intros)
  apply (simp split: pyval.splits add: reads_only_intros)
  done

lemma reads_only_get_container_id: "reads_only (get_container_id cl n)"
  unfolding get_container_id_def
  by (intro reads_only_intros) (simp add: reads_only_intros split: option.splits)

lemma reads_only_is_empty: "reads_only (is_empty cl n)"
  unfolding is_empty_def
  apply (rule reads_only_bind, rule reads_only_get_container_info)
  apply (simp split: option.splits add: reads_only_intros)
  done

lemma reads_only_is_container_exists: "reads_only (is_container_exists cl n)"
  unfolding reads_only_def
proof
  fix w
  obtain r w1 where g: "get_container_by_name cl n w = (r, w1)" by (cases "get_container_by_name cl n w")
  from reads_onlyD[OF reads_only_get_container_by_name g] have "only_lookups w w1" .
  with g show "only_lookups w (snd (is_container_exists cl n w))"
    by (simp add: is_container_exists_def split: sum.splits)
qed

lemma reads_only_resolve_configlets: "reads_only (resolve_configlets cl names acc)"
  unfolding reads_only_def
proof
  fix w show "only_lookups w (snd (resolve_configlets cl names acc w))"
  proof (induction names arbitrary: acc w)
    case Nil
    then show ?case by (simp add: only_lookups_refl)
  next
    case (Cons n names)
    obtain r w1 where g: "get_configlet_info cl n w = (r, w1)" by (cases "get_configlet_info cl n w")
    from reads_onlyD[OF reads_only_get_configlet_info g] have l: "only_lookups w w1" .
    show ?case
    proof (cases r)
      case (Inl e)
      with g l show ?thesis by simp
    next
      case (Inr d)
      from Cons.IH[where acc="case d of None \<Rightarrow> acc | Some x \<Rightarrow> acc @ [x]" and w=w1] l
      have "only_lookups w (snd (resolve_configlets cl names (case d of None \<Rightarrow> acc | Some x \<Rightarrow> acc @ [x]) w1))"
        by (rule only_lookups_trans[rotated])
      with g Inr show ?thesis by simp
    qed
  qed
qed

lemma reads_only_create_check: "reads_only (create_container cl True c p)"
  unfolding create_container_def Let_def
  apply (rule reads_only_bind, rule reads_only_is_container_exists)
  apply (simp add: reads_only_intros)
  apply (intro impI reads_only_intros reads_only_is_container_exists)
  apply (simp add: reads_only_intros)
  done

lemma reads_only_configlet_add_check: "reads_only (configlet_add cl True info batch t)"
  unfolding configlet_add_def Let_def
  by (simp split: option.splits add: reads_only_intros)

lemma reads_only_configlet_del_check: "reads_only (configlet_del cl True info batch t)"
  unfolding configlet_del_def Let_def
  by (simp split: option.splits add: reads_only_intros)

lemma reads_only_attach_check: "reads_only (configlets_attach cl True c names)"
  unfolding configlets_attach_def
  by (intro reads_only_intros reads_only_get_container_info reads_only_resolve_configlets
        reads_only_configlet_add_check)

lemma reads_only_detach_check: "reads_only (configlets_detach cl True c names)"
  unfolding configlets_detach_def
  by (intro reads_only_intros reads_only_get_container_info reads_only_resolve_configlets
        reads_only_configlet_del_check)

section \<open>The operations on the registry\<close>

lemma py_bind_InrD:
  assumes "fst (py_bind m f w) = Inr r"
  obtains x w1 where "m w = (Inr x, w1)" "fst (f x w1) = Inr r"
  using assms by (auto simp: py_bind_def split: prod.splits sum.splits)

lemma create_check_result:
  assumes "fst (create_container cl True c p w) = Inr r"
  shows "r = (CvApiResult_init c)\<lparr>success := True, changed := True\<rparr> \<or> r = CvApiResult_init c"
  using assms unfolding create_container_def Let_def
  by (auto elim!: py_bind_InrD simp: ret_def split: if_splits)

lemma attach_check_result:
  assumes "fst (configlets_attach cl True c names w) = Inr r"
  shows "success r \<or> r = CvApiResult_init ''Undefined''"
  using assms unfolding configlets_attach_def configlet_add_def Let_def
  by (auto elim!: py_bind_InrD simp: ret_def split: option.splits)

lemma detach_check_result:
  assumes "fst (configlets_detach cl True c names w) = Inr r"
  shows "success r"
  using assms unfolding configlets_detach_def configlet_del_def Let_def
  by (auto elim!: py_bind_InrD simp: ret_def raise_def split: option.splits)

text \<open>
  C4, amended. In check mode \<^verbatim>\<open>create_container\<close>, \<^verbatim>\<open>configlets_attach\<close> and
  \<^verbatim>\<open>configlets_detach\<close> send no call that changes the registry: the client records
  lookups only. A result that they return is a success or, for the creation and the
  attachment, the result that was left untouched.
\<close>

theorem check_mode_reads_only:
  "only_lookups w (snd (create_container cl True container parent w))
   \<and> only_lookups w (snd (configlets_attach cl True container configlets w))
   \<and> only_lookups w (snd (configlets_detach cl True container configlets w))
   \<and> (\<forall>r. fst (create_container cl True container parent w) = Inr r \<longrightarrow>
          r = (CvApiResult_init container)\<lparr>success := True, changed := True\<rparr>
          \<or> r = CvApiResult_init container)
   \<and> (\<forall>r. fst (configlets_attach cl True container configlets w) = Inr r \<longrightarrow>
          success r \<or> r = CvApiResult_init ''Undefined'')
   \<and> (\<forall>r. fst (configlets_detach cl True container configlets w) = Inr r \<longrightarrow> success r)"
proof (intro conjI allI impI)
  show "only_lookups w (snd (create_container cl True container parent w))"
    using reads_only_create_check[of cl container parent] by (simp add: reads_only_def)
  show "only_lookups w (snd (configlets_attach cl True container configlets w))"
    using reads_only_attach_check[of cl container configlets] by (simp add: reads_only_def)
  show "only_lookups w (snd (configlets_detach cl True container configlets w))"
    using reads_only_detach_check[of cl container configlets] by (simp add: reads_only_def)
qed (erule create_check_result attach_check_result detach_check_result)+

text \<open>
  C4, as stated, fails: the creation of DC2 under Tenant in check mode succeeds, and the
  client has recorded three lookups, so the number of recorded calls is not zero.
\<close>

theorem check_mode_issues_lookups:
  "create_container registry_client True ''DC2'' ''Tenant'' (start [(''Tenant'', '''', 0)])
   = (Inr \<lparr>name = ''DC2'', success = True, changed = True, taskIds = PList [], count = 0\<rparr>,
      \<lparr>cv = [(''Tenant'', '''', 0)],
       calls = [Get_container_by_name ''Tenant'', Get_container_by_name ''Tenant'',
                Get_container_by_name ''DC2'']\<rparr>)"
  by (simp add: op_defs monad_defs reg_defs field_defs)

theorem check_mode_reads_only_witness:
  "fst (create_container registry_client True ''DC2'' ''Tenant'' (start [(''Tenant'', '''', 0)]))
     = Inr ((CvApiResult_init ''DC2'')\<lparr>success := True, changed := True\<rparr>)
   \<and> only_lookups (start [(''Tenant'', '''', 0)])
        (snd (create_container registry_client True ''DC2'' ''Tenant'' (start [(''Tenant'', '''', 0)])))"
proof -
  have r: "fst (create_container registry_client True ''DC2'' ''Tenant'' (start [(''Tenant'', '''', 0)]))
     = Inr \<lparr>name = ''DC2'', success = True, changed = True, taskIds = PList [], count = 0\<rparr>"
    by (simp add: op_defs monad_defs reg_defs field_defs)
  from check_mode_reads_only[of "start [(''Tenant'', '''', 0)]" registry_client "''DC2''" "''Tenant''" "[]"] r
  show ?thesis by (simp add: CvApiResult_init_def)
qed

text \<open>
  C3. The claim asks that no exception reaches the caller. With a container that the
  registry does not know, \<^verbatim>\<open>configlets_detach\<close> raises \<^verbatim>\<open>TypeError\<close> in both modes,
  where \<^verbatim>\<open>configlets_attach\<close> answers the untouched result; with a lookup that raises
  \<^verbatim>\<open>CvpApiError\<close>, \<^verbatim>\<open>is_container_exists\<close> and \<^verbatim>\<open>create_container\<close> raise
  \<^verbatim>\<open>UnboundLocalError\<close>, and \<^verbatim>\<open>configlets_attach\<close> lets the error of the registry
  through.
\<close>

theorem registry_error_propagates:
  "fst (configlets_detach registry_client False ''DC3'' [''ASE_DEVICE-ALIASES''] (start []))
     = Inl TypeError
   \<and> fst (configlets_detach registry_client True ''DC3'' [''ASE_DEVICE-ALIASES''] (start []))
     = Inl TypeError
   \<and> fst (configlets_attach registry_client False ''DC3'' [''ASE_DEVICE-ALIASES''] (start []))
     = Inr (CvApiResult_init ''Undefined'')
   \<and> fst (is_container_exists failing_client ''DC3'' (start ())) = Inl UnboundLocalError
   \<and> fst (create_container failing_client False ''DC3'' ''Tenant'' (start ())) = Inl UnboundLocalError
   \<and> fst (configlets_attach failing_client False ''DC3'' [] (start ())) = Inl CvpApiError"
  by (simp add: op_defs monad_defs reg_defs field_defs)

text \<open>
  C5. The claim asks for \<^verbatim>\<open>changed=true\<close> on the first of two creations of the same
  container. Outside of check mode the first call creates DC2 and answers a success whose
  \<^verbatim>\<open>changed\<close> is false; the second call, on the registry that the first one left, sends
  no creation and answers the untouched result.
\<close>

theorem create_container_twice:
  "create_container registry_client False ''DC2'' ''Tenant'' (start [(''Tenant'', '''', 0)])
   = (Inr \<lparr>name = ''DC2'', success = True, changed = False, taskIds = PList [], count = 1\<rparr>,
      \<lparr>cv = [(''Tenant'', '''', 0), (''DC2'', ''Tenant'', 0)],
       calls = [Get_container_by_name ''Tenant'', Get_container_by_name ''Tenant'',
                Get_container_by_name ''DC2'',
                Add_container ''DC2'' (PStr ''container_Tenant'') ''Tenant'']\<rparr>)
   \<and> create_container registry_client False ''DC2'' ''Tenant''
       \<lparr>cv = [(''Tenant'', '''', 0), (''DC2'', ''Tenant'', 0)], calls = []\<rparr>
   = (Inr \<lparr>name = ''DC2'', success = False, changed = False, taskIds = PList [], count = 0\<rparr>,
      \<lparr>cv = [(''Tenant'', '''', 0), (''DC2'', ''Tenant'', 0)],
       calls = [Get_container_by_name ''Tenant'', Get_container_by_name ''Tenant'',
                Get_container_by_name ''DC2'']\<rparr>)"
  by (simp add: op_defs monad_defs reg_defs field_defs)

text \<open>
  C6. When the container exists and the facts that the registry gives for it hold
  \<^verbatim>\<open>childNetElementCount = 1\<close>, \<^verbatim>\<open>delete_container\<close> answers the untouched result,
  whose success is false, in check mode or not, and the client has recorded lookups only:
  no deletion was sent.
\<close>

theorem delete_container_non_empty:
  assumes "is_container_exists cl container w = (Inr True, w1)"
      and "get_container_info cl container w1 = (Inr (Some info), w2)"
      and "map_of info FIELD_COUNT_DEVICES = Some (PInt 1)"
  shows "delete_container cl check_mode container parent w = (Inr (CvApiResult_init container), w2)
       \<and> \<not> success (CvApiResult_init container)
       \<and> only_lookups w w2"
proof -
  have e: "is_empty cl container w1 = (Inr False, w2)"
    using assms(2,3) by (simp add: is_empty_def py_bind_def ret_def split: option.splits)
  have d: "delete_container cl check_mode container parent w = (Inr (CvApiResult_init container), w2)"
    unfolding delete_container_def Let_def
    by (simp add: py_bind_def assms(1) e ret_def)
  from reads_onlyD[OF reads_only_is_container_exists assms(1)]
       reads_onlyD[OF reads_only_get_container_info assms(2)]
  have "only_lookups w w2" by (rule only_lookups_trans)
  with d show ?thesis by (simp add: CvApiResult_init_def)
qed

theorem delete_container_non_empty_witness:
  "delete_container registry_client False ''DC2'' ''Tenant''
     (start [(''Tenant'', '''', 0), (''DC2'', ''Tenant'', 1)])
   = (Inr (CvApiResult_init ''DC2''),
      \<lparr>cv = [(''Tenant'', '''', 0), (''DC2'', ''Tenant'', 1)],
       calls = [Get_container_by_name ''DC2'', Get_container_by_name ''DC2'',
                Get_container_by_name ''DC2'', Filter_topology (PStr ''container_DC2'')]\<rparr>)"
proof -
  have h1: "is_container_exists registry_client ''DC2'' (start [(''Tenant'', '''', 0), (''DC2'', ''Tenant'', 1)])
    = (Inr True, \<lparr>cv = [(''Tenant'', '''', 0), (''DC2'', ''Tenant'', 1)], calls = [Get_container_by_name ''DC2'']\<rparr>)"
    by (simp add: op_defs monad_defs reg_defs field_defs)
  have h2: "get_container_info registry_client ''DC2''
      \<lparr>cv = [(''Tenant'', '''', 0), (''DC2'', ''Tenant'', 1)], calls = [Get_container_by_name ''DC2'']\<rparr>
    = (Inr (Some [(''key'', PStr ''container_DC2''), (''name'', PStr ''DC2''),
                  (''childContainerCount'', PInt 0), (''childNetElementCount'', PInt 1),
                  (''parentContainerId'', PStr ''container_Tenant'')]),
       \<lparr>cv = [(''Tenant'', '''', 0), (''DC2'', ''Tenant'', 1)],
       calls = [Get_container_by_name ''DC2'', Get_container_by_name ''DC2'',
                Get_container_by_name ''DC2'', Filter_topology (PStr ''container_DC2'')]\<rparr>)"
    by (simp add: op_defs monad_defs reg_defs field_defs)
  have h3: "map_of [(''key'', PStr ''container_DC2''), (''name'', PStr ''DC2''),
                  (''childContainerCount'', PInt 0), (''childNetElementCount'', PInt 1),
                  (''parentContainerId'', PStr ''container_Tenant'')] FIELD_COUNT_DEVICES = Some (PInt 1)"
    by (simp add: field_defs)
  from delete_container_non_empty[OF h1 h2 h3] show ?thesis by simp
qed

text \<open>
  C10. When the lookup of the container answers \<^verbatim>\<open>None\<close>, \<^verbatim>\<open>get_container_info\<close>
  answers \<^verbatim>\<open>None\<close> and \<^verbatim>\<open>is_empty\<close> raises \<^verbatim>\<open>TypeError\<close>; so \<^verbatim>\<open>is_empty\<close>
  answers a boolean only if the lookup gave a container with a key. \<^verbatim>\<open>delete_container\<close>
  tests \<^verbatim>\<open>is_container_exists\<close> first and, for a container that does not exist, answers
  without evaluating \<^verbatim>\<open>is_empty\<close>.
\<close>

theorem is_empty_needs_container:
  "(fst (get_container_by_name cl container_name w) = Inr None \<longrightarrow>
      fst (get_container_info cl container_name w) = Inr None
      \<and> fst (is_empty cl container_name w) = Inl TypeError)
   \<and> (\<forall>b. fst (is_empty cl container_name w) = Inr b \<longrightarrow>
        (\<exists>d. fst (get_container_by_name cl container_name w) = Inr (Some d)
             \<and> map_of d FIELD_KEY \<noteq> None))
   \<and> (fst (is_container_exists cl container_name w) = Inr False \<longrightarrow>
        delete_container cl check_mode container_name parent w
        = (Inr (CvApiResult_init container_name), snd (is_container_exists cl container_name w)))"
proof (intro conjI allI impI)
  assume a: "fst (get_container_by_name cl container_name w) = Inr None"
  obtain w1 where g: "get_container_by_name cl container_name w = (Inr None, w1)"
    using a by (cases "get_container_by_name cl container_name w") simp
  have i: "get_container_info cl container_name w = (Inr None, w1)"
    by (simp add: get_container_info_def py_bind_def g ret_def)
  show "fst (get_container_info cl container_name w) = Inr None" using i by simp
  show "fst (is_empty cl container_name w) = Inl TypeError"
    by (simp add: is_empty_def py_bind_def i raise_def)
next
  fix b assume a: "fst (is_empty cl container_name w) = Inr b"
  then obtain info w1 where i: "get_container_info cl container_name w = (Inr (Some info), w1)"
    unfolding is_empty_def
    by (auto elim!: py_bind_InrD simp: raise_def split: option.splits)
  then have "fst (get_container_info cl container_name w) = Inr (Some info)" by simp
  then show "\<exists>d. fst (get_container_by_name cl container_name w) = Inr (Some d) \<and> map_of d FIELD_KEY \<noteq> None"
    unfolding get_container_info_def
    by (auto elim!: py_bind_InrD simp: ret_def split: option.splits if_splits)
next
  assume a: "fst (is_container_exists cl container_name w) = Inr False"
  then obtain w1 where e: "is_container_exists cl container_name w = (Inr False, w1)"
    by (cases "is_container_exists cl container_name w") simp
  have "delete_container cl check_mode container_name parent w
        = (Inr (CvApiResult_init container_name), w1)"
    unfolding delete_container_def Let_def
    by (simp add: py_bind_def e ret_def)
  with e show "delete_container cl check_mode container_name parent w
        = (Inr (CvApiResult_init container_name), snd (is_container_exists cl container_name w))"
    by simp
qed

theorem is_empty_needs_container_witness:
  "fst (get_container_by_name registry_client ''DC9'' (start [(''Tenant'', '''', 0)])) = Inr None
   \<and> fst (is_empty registry_client ''DC9'' (start [(''Tenant'', '''', 0)])) = Inl TypeError
   \<and> fst (is_empty registry_client ''Tenant'' (start [(''Tenant'', '''', 0)])) = Inr True"
proof -
  have g: "fst (get_container_by_name registry_client ''DC9'' (start [(''Tenant'', '''', 0)])) = Inr None"
    by (simp add: op_defs monad_defs reg_defs field_defs)
  have t: "fst (is_empty registry_client ''Tenant'' (start [(''Tenant'', '''', 0)])) = Inr True"
    by (simp add: op_defs monad_defs reg_defs field_defs)
  from is_empty_needs_container[of registry_client "''DC9''" "start [(''Tenant'', '''', 0)]"] g t
  show ?thesis by simp
qed

lemma get_configlet_info_look:
  assumes "fst (api_get_configlet_by_name cl n (cv w)) = Inr r"
  shows "get_configlet_info cl n w
         = (Inr (map_option standard_output r), snd (get_configlet_info cl n w))"
  using assms
  by (cases "api_get_configlet_by_name cl n (cv w)")
     (simp add: get_configlet_info_def get_configlet_by_name_def invoke_def py_bind_def ret_def
           split: option.splits)

lemma resolve_configlets_look:
  assumes "\<And>n s. n \<in> set names \<Longrightarrow> fst (api_get_configlet_by_name cl n s) = Inr (look n)"
  shows "fst (resolve_configlets cl names acc w)
         = Inr (acc @ map standard_output (List.map_filter look names))"
  using assms
proof (induction names arbitrary: acc w)
  case Nil
  then show ?case by simp
next
  case (Cons n names)
  have "fst (api_get_configlet_by_name cl n (cv w)) = Inr (look n)"
    using Cons.prems by simp
  from get_configlet_info_look[OF this] obtain w1 where
    g: "get_configlet_info cl n w = (Inr (map_option standard_output (look n)), w1)" by blast
  have ih: "\<And>acc'. fst (resolve_configlets cl names acc' w1)
           = Inr (acc' @ map standard_output (List.map_filter look names))"
    using Cons.IH Cons.prems by simp
  show ?case
    by (cases "look n") (simp_all add: g ih)
qed

lemma response_name_empty: "response_name (PStr nm) (configlet_names []) = Inr (nm @ '':'')"
  by (simp add: response_name_def configlet_names_def sum_bind_def)

text \<open>
  C7. Let the lookups of the requested configlets answer \<open>look n\<close>, and let the container
  be known. Then \<^verbatim>\<open>configlets_attach\<close> hands to \<^verbatim>\<open>_configlet_add\<close> the configlets
  that were found, in order, and nothing for a name whose lookup answered \<^verbatim>\<open>None\<close>.
  When no name is found the batch is empty: in check mode the result is a success; outside
  of check mode the call \<^verbatim>\<open>apply_configlets_to_container\<close> is sent with the empty list
  and the result is a success as soon as the registry answers one.
\<close>

theorem configlets_attach_unresolved:
  assumes look: "\<And>n s. n \<in> set configlets \<Longrightarrow> fst (api_get_configlet_by_name cl n s) = Inr (look n)"
      and info: "get_container_info cl container w = (Inr (Some info), w1)"
  shows "\<exists>w2. only_lookups w w2
     \<and> (\<forall>check_mode. configlets_attach cl check_mode container configlets w
           = configlet_add cl check_mode (Some info)
               (map standard_output (List.map_filter look configlets)) True w2)
     \<and> ((\<forall>n \<in> set configlets. look n = None) \<and> map_of info ''name'' = Some (PStr nm) \<longrightarrow>
          configlets_attach cl True container configlets w
            = (Inr \<lparr>name = nm @ '':'', success = True, changed = False,
                    taskIds = PList [PStr ''check_mode''], count = 0\<rparr>, w2)
          \<and> calls (snd (configlets_attach cl False container configlets w))
            = calls w2 @ [Apply_configlets_to_container [] info True]
          \<and> (\<forall>resp s d t.
                api_apply_configlets_to_container cl [] info True (cv w2) = (Inr resp, s)
                \<and> map_of resp ''data'' = Some (PDict d)
                \<and> map_of d ''status'' = Some (PStr ''success'')
                \<and> map_of d ''taskIds'' = Some t
                \<longrightarrow> fst (configlets_attach cl False container configlets w)
                    = Inr \<lparr>name = nm @ '':'', success = True, changed = False,
                           taskIds = t, count = 0\<rparr>))"
proof -
  define w2 where "w2 = snd (resolve_configlets cl configlets [] w1)"
  define batch where "batch = map standard_output (List.map_filter look configlets)"
  from resolve_configlets_look[of configlets cl look "[]" w1] look
  have "fst (resolve_configlets cl configlets [] w1) = Inr batch"
    by (simp add: batch_def)
  then have r: "resolve_configlets cl configlets [] w1 = (Inr batch, w2)"
    by (simp add: w2_def prod_eq_iff)
  have a: "configlets_attach cl check_mode container configlets w
           = configlet_add cl check_mode (Some info) batch True w2" for check_mode
    by (simp add: configlets_attach_def py_bind_def info r)
  from reads_onlyD[OF reads_only_get_container_info info]
       reads_onlyD[OF reads_only_resolve_configlets r]
  have l: "only_lookups w w2" by (rule only_lookups_trans)
  have u: "configlets_attach cl True container configlets w
            = (Inr \<lparr>name = nm @ '':'', success = True, changed = False,
                    taskIds = PList [PStr ''check_mode''], count = 0\<rparr>, w2)
          \<and> calls (snd (configlets_attach cl False container configlets w))
            = calls w2 @ [Apply_configlets_to_container [] info True]
          \<and> (\<forall>resp s d t.
                api_apply_configlets_to_container cl [] info True (cv w2) = (Inr resp, s)
                \<and> map_of resp ''data'' = Some (PDict d)
                \<and> map_of d ''status'' = Some (PStr ''success'')
                \<and> map_of d ''taskIds'' = Some t
                \<longrightarrow> fst (configlets_attach cl False container configlets w)
                    = Inr \<lparr>name = nm @ '':'', success = True, changed = False,
                           taskIds = t, count = 0\<rparr>)"
    if un: "\<forall>n \<in> set configlets. look n = None" and nm: "map_of info ''name'' = Some (PStr nm)"
  proof -
    from un have "List.map_filter look configlets = []"
      by (induction configlets) simp_all
    then have b: "batch = []" by (simp add: batch_def)
    have n: "sum_bind (dict_getitem info ''name'') (\<lambda>n. response_name n (configlet_names []))
             = Inr (nm @ '':'')"
      by (simp add: dict_getitem_def nm sum_bind_def response_name_empty)
    have c1: "configlet_add cl True (Some info) [] True w2
            = (Inr \<lparr>name = nm @ '':'', success = True, changed = False,
                    taskIds = PList [PStr ''check_mode''], count = 0\<rparr>, w2)"
      by (simp add: configlet_add_def n py_bind_def lift_def ret_def CvApiResult_init_def)
    have c2: "configlet_add cl False (Some info) [] True w2
            = try_call (invoke (Apply_configlets_to_container [] info True)
                          (api_apply_configlets_to_container cl [] info True))
                ((CvApiResult_init ''Undefined'')\<lparr>name := nm @ '':''\<rparr>)
                (configlet_resp ((CvApiResult_init ''Undefined'')\<lparr>name := nm @ '':''\<rparr>)) w2"
      by (simp add: configlet_add_def n py_bind_def lift_def Let_def)
    have c3: "calls (snd (configlet_add cl False (Some info) [] True w2))
              = calls w2 @ [Apply_configlets_to_container [] info True]"
      unfolding c2
      by (simp add: try_call_def invoke_def split: prod.splits sum.splits)
    have c4: "fst (configlet_add cl False (Some info) [] True w2)
                    = Inr \<lparr>name = nm @ '':'', success = True, changed = False,
                           taskIds = t, count = 0\<rparr>"
      if "api_apply_configlets_to_container cl [] info True (cv w2) = (Inr resp, s)"
         "map_of resp ''data'' = Some (PDict d)"
         "map_of d ''status'' = Some (PStr ''success'')"
         "map_of d ''taskIds'' = Some t" for resp s d t
      unfolding c2 using that
      by (simp add: try_call_def invoke_def configlet_resp_def sum_bind_def dict_getitem_def
            CvApiResult_init_def)
    from c1 c3 c4 show ?thesis unfolding a b by blast
  qed
  from l a u show ?thesis unfolding batch_def by blast
qed

theorem configlets_attach_unresolved_witness:
  "fst (configlets_attach registry_client True ''DC2'' [''missing-name'']
         (start [(''Tenant'', '''', 0), (''DC2'', ''Tenant'', 0)]))
   = Inr \<lparr>name = ''DC2:'', success = True, changed = False,
          taskIds = PList [PStr ''check_mode''], count = 0\<rparr>"
proof -
  have look: "\<And>n s. n \<in> set [''missing-name''] \<Longrightarrow>
      fst (api_get_configlet_by_name registry_client n s) = Inr None"
    by (simp add: registry_client_def)
  have info: "get_container_info registry_client ''DC2'' (start [(''Tenant'', '''', 0), (''DC2'', ''Tenant'', 0)])
     = (Inr (Some [(''key'', PStr ''container_DC2''), (''name'', PStr ''DC2''),
                  (''childContainerCount'', PInt 0), (''childNetElementCount'', PInt 0),
                  (''parentContainerId'', PStr ''container_Tenant'')]),
       \<lparr>cv = [(''Tenant'', '''', 0), (''DC2'', ''Tenant'', 0)],
       calls = [Get_container_by_name ''DC2'',
                Get_container_by_name ''DC2'', Filter_topology (PStr ''container_DC2'')]\<rparr>)"
    by (simp add: op_defs monad_defs reg_defs field_defs)
  from configlets_attach_unresolved[where look = "\<lambda>n. None" and configlets = "[''missing-name'']"
         and nm = "''DC2''", OF look info]
  show ?thesis by auto
qed

end
